theory Spec2Isabelle
  imports Complex_Main "HOL-Library.AList"
begin

section \<open>Numbers, errors and dictionaries of the Python runtime\<close>

text \<open>
  The statistics functions of \<^verbatim>\<open>streamlit_portal_app.py\<close> are
  \<^verbatim>\<open>calc_probabilities\<close> (lines 87-91) and \<^verbatim>\<open>expected_value\<close> (lines 94-103).
  They compute on Python \<^verbatim>\<open>int\<close>s (unbounded, here \<^typ>\<open>int\<close>) and on
  binary floating-point numbers.  A floating-point value is either finite or one of the
  special values; a finite value is represented by the rational number it stands for and
  arithmetic on finite values is exact: rounding to 53 bits, signed zeros and overflow to
  infinity are not part of this model.  The special values follow IEEE 754.
\<close>

datatype pyfloat = Fin rat | PInf | NInf | NaN

fun fl_mul :: "pyfloat \<Rightarrow> pyfloat \<Rightarrow> pyfloat" where
  "fl_mul NaN _ = NaN"
| "fl_mul _ NaN = NaN"
| "fl_mul (Fin a) (Fin b) = Fin (a * b)"
| "fl_mul (Fin a) PInf = (if a = 0 then NaN else if 0 < a then PInf else NInf)"
| "fl_mul (Fin a) NInf = (if a = 0 then NaN else if 0 < a then NInf else PInf)"
| "fl_mul PInf (Fin b) = (if b = 0 then NaN else if 0 < b then PInf else NInf)"
| "fl_mul NInf (Fin b) = (if b = 0 then NaN else if 0 < b then NInf else PInf)"
| "fl_mul PInf PInf = PInf"
| "fl_mul PInf NInf = NInf"
| "fl_mul NInf PInf = NInf"
| "fl_mul NInf NInf = PInf"

fun fl_add :: "pyfloat \<Rightarrow> pyfloat \<Rightarrow> pyfloat" where
  "fl_add NaN _ = NaN"
| "fl_add _ NaN = NaN"
| "fl_add (Fin a) (Fin b) = Fin (a + b)"
| "fl_add (Fin a) PInf = PInf"
| "fl_add (Fin a) NInf = NInf"
| "fl_add PInf (Fin b) = PInf"
| "fl_add NInf (Fin b) = NInf"
| "fl_add PInf PInf = PInf"
| "fl_add PInf NInf = NaN"
| "fl_add NInf PInf = NaN"
| "fl_add NInf NInf = NInf"

fun fl_neg :: "pyfloat \<Rightarrow> pyfloat" where
  "fl_neg (Fin a) = Fin (- a)"
| "fl_neg PInf = NInf"
| "fl_neg NInf = PInf"
| "fl_neg NaN = NaN"

definition fl_sub :: "pyfloat \<Rightarrow> pyfloat \<Rightarrow> pyfloat" where
  "fl_sub x y = fl_add x (fl_neg y)"

text \<open>An \<^verbatim>\<open>int\<close> operand of a mixed operation is converted to a float first.\<close>

definition float_of_int :: "int \<Rightarrow> pyfloat" where
  "float_of_int n = Fin (of_int n)"

datatype py_error = KeyError string | ZeroDivisionError

text \<open>
  \<^verbatim>\<open>a / b\<close> on two \<^verbatim>\<open>int\<close>s is true division: it raises
  \<^verbatim>\<open>ZeroDivisionError\<close> for \<^verbatim>\<open>b == 0\<close> and gives a float otherwise.
\<close>

definition py_truediv :: "int \<Rightarrow> int \<Rightarrow> py_error + pyfloat" where
  "py_truediv a b = (if b = 0 then Inl ZeroDivisionError else Inr (Fin (of_int a / of_int b)))"

text \<open>
  The same operator on a pandas \<^verbatim>\<open>Series\<close> of integers never raises: numpy
  gives \<^verbatim>\<open>nan\<close> for \<^verbatim>\<open>0 / 0\<close> and a signed infinity for \<^verbatim>\<open>x / 0\<close>.
\<close>

definition np_truediv :: "int \<Rightarrow> int \<Rightarrow> pyfloat" where
  "np_truediv a b =
     (if b \<noteq> 0 then Fin (of_int a / of_int b)
      else if a = 0 then NaN else if 0 < a then PInf else NInf)"

text \<open>
  A \<^verbatim>\<open>dict\<close> keeps its keys in insertion order and holds each key once: it is an
  association list with distinct keys.  \<^verbatim>\<open>d[k]\<close> raises \<^verbatim>\<open>KeyError\<close> for a
  missing key; \<^verbatim>\<open>d[k] = v\<close> replaces the value of a present key in place and appends
  a new key (\<^const>\<open>AList.update\<close>).
\<close>

type_synonym ('k, 'v) dict = "('k \<times> 'v) list"

definition dict_wf :: "('k, 'v) dict \<Rightarrow> bool" where
  "dict_wf d = distinct (map fst d)"

definition dict_get :: "(string, 'v) dict \<Rightarrow> string \<Rightarrow> py_error + 'v" where
  "dict_get d k = (case map_of d k of None \<Rightarrow> Inl (KeyError k) | Some v \<Rightarrow> Inr v)"

definition dict_set :: "('k, 'v) dict \<Rightarrow> 'k \<Rightarrow> 'v \<Rightarrow> ('k, 'v) dict" where
  "dict_set d k v = AList.update k v d"

definition dict_keys :: "('k, 'v) dict \<Rightarrow> 'k list" where
  "dict_keys d = map fst d"

definition dict_values :: "('k, 'v) dict \<Rightarrow> 'v list" where
  "dict_values d = map snd d"

text \<open>
  A dict built from a sequence of items (a dict comprehension, \<^verbatim>\<open>dict(zip(..))\<close>,
  \<^verbatim>\<open>Series.to_dict()\<close>) stores the items one after the other.
\<close>

definition dict_of_items :: "('k \<times> 'v) list \<Rightarrow> ('k, 'v) dict" where
  "dict_of_items kvs = foldl (\<lambda>d (k, v). dict_set d k v) [] kvs"

text \<open>\<^verbatim>\<open>sum(xs)\<close> adds from the left, starting at the \<^verbatim>\<open>int\<close> 0.\<close>

definition py_sum_int :: "int list \<Rightarrow> int" where
  "py_sum_int xs = foldl (+) 0 xs"

definition py_sum_float :: "pyfloat list \<Rightarrow> pyfloat" where
  "py_sum_float xs = foldl fl_add (Fin 0) xs"

text \<open>Evaluating a fallible expression for each element of a list, in order.\<close>

fun traverse :: "('a \<Rightarrow> py_error + 'b) \<Rightarrow> 'a list \<Rightarrow> py_error + 'b list" where
  "traverse f [] = Inr []"
| "traverse f (x # xs) =
     (case f x of
        Inl e \<Rightarrow> Inl e
      | Inr y \<Rightarrow> (case traverse f xs of Inl e \<Rightarrow> Inl e | Inr ys \<Rightarrow> Inr (y # ys)))"


section \<open>The history table and the pandas operations on it\<close>

text \<open>
  \<^verbatim>\<open>CATEGORIES\<close> is a list of three Japanese labels in the source (a win, a
  loss and a loss at the goal); they are given here by their UTF-8 bytes.  Both functions
  read this module constant; in the model it is passed as the first argument \<open>cats\<close>.
\<close>

definition label_win :: string where
  "label_win = [CHR 0xE5, CHR 0x8B, CHR 0x9D, CHR 0xE3, CHR 0x81, CHR 0xA1]"

definition label_loss :: string where
  "label_loss = [CHR 0xE8, CHR 0xB2, CHR 0xA0, CHR 0xE3, CHR 0x81, CHR 0x91]"

definition label_goal_loss :: string where
  "label_goal_loss = [CHR 0xE3, CHR 0x82, CHR 0xB4, CHR 0xE3, CHR 0x83, CHR 0xBC,
                CHR 0xE3, CHR 0x83, CHR 0xAB] @ label_loss"

definition CATEGORIES :: "string list" where
  "CATEGORIES = [label_win, label_loss, label_goal_loss]"

text \<open>
  A row of the history table (\<^verbatim>\<open>history.csv\<close>): the date and time of the draw and
  its result.  The data frame is the list of its rows; \<^verbatim>\<open>df.empty\<close> holds when it
  has no row.  (A row whose result cell is missing is not counted by
  \<^verbatim>\<open>value_counts\<close>; it behaves as a row whose result is no category.)
\<close>

record history_row =
  held_at :: int
  result :: string

type_synonym data_frame = "history_row list"

definition df_empty :: "data_frame \<Rightarrow> bool" where
  "df_empty df = (df = [])"

text \<open>
  A \<^verbatim>\<open>Series\<close> is a list of labelled values.  \<^verbatim>\<open>value_counts()\<close> has one
  entry for each distinct value of the column, with the number of its occurrences (pandas
  sorts the entries by count; the order is lost in the \<^verbatim>\<open>reindex\<close> that follows).
  \<^verbatim>\<open>reindex(labels, fill_value=v)\<close> has one entry for each of \<open>labels\<close>, in
  their order: the value of the label in the series, \<open>v\<close> where the series has none.
\<close>

type_synonym 'v series = "(string \<times> 'v) list"

definition value_counts :: "string list \<Rightarrow> int series" where
  "value_counts col = map (\<lambda>v. (v, int (count_list col v))) (remdups col)"

definition reindex :: "string list \<Rightarrow> 'v \<Rightarrow> 'v series \<Rightarrow> 'v series" where
  "reindex labels fill_value s =
     map (\<lambda>c. (c, case map_of s c of None \<Rightarrow> fill_value | Some v \<Rightarrow> v)) labels"

definition series_sum :: "int series \<Rightarrow> int" where
  "series_sum s = py_sum_int (map snd s)"

definition series_truediv :: "int series \<Rightarrow> int \<Rightarrow> pyfloat series" where
  "series_truediv s d = map (\<lambda>(c, n). (c, np_truediv n d)) s"

definition to_dict :: "'v series \<Rightarrow> (string, 'v) dict" where
  "to_dict s = dict_of_items s"


section \<open>The statistics functions\<close>

text \<open>
  \<^verbatim>\<open>
  def calc_probabilities(df):
      if df.empty:
          return {c: 1 / len(CATEGORIES) for c in CATEGORIES}
      counts = df[RESULT].value_counts().reindex(CATEGORIES, fill_value=0)
      return (counts / counts.sum()).to_dict()
  \<close>
  where \<^verbatim>\<open>RESULT\<close> stands for the name of the result column.
\<close>

definition calc_probabilities ::
  "string list \<Rightarrow> data_frame \<Rightarrow> py_error + (string, pyfloat) dict" where
  "calc_probabilities cats df =
     (if df_empty df then
        (case traverse (\<lambda>c. (case py_truediv 1 (int (length cats)) of
                                Inl e \<Rightarrow> Inl e | Inr p \<Rightarrow> Inr (c, p))) cats of
           Inl e \<Rightarrow> Inl e
         | Inr items \<Rightarrow> Inr (dict_of_items items))
      else
        (let counts = reindex cats 0 (value_counts (map result df))
         in Inr (to_dict (series_truediv counts (series_sum counts)))))"

text \<open>
  \<^verbatim>\<open>
  def expected_value(bet_amount, pool, probs):
      ev, payout = {}, {}
      base = sum(pool.values())
      for c in CATEGORIES:
          total = base + bet_amount
          win_pool = pool[c] + bet_amount
          ratio = total / win_pool if win_pool else 0
          payout[c] = ratio * bet_amount if win_pool else 0
          ev[c] = probs[c] * payout[c] - bet_amount
      return ev, payout
  \<close>
  The loop body takes the two dicts under construction and returns them updated, or the
  exception that ends the call.
\<close>

type_synonym ev_state = "(string, pyfloat) dict \<times> (string, pyfloat) dict"

definition ev_body ::
  "int \<Rightarrow> (string, int) dict \<Rightarrow> (string, pyfloat) dict \<Rightarrow> int \<Rightarrow> string \<Rightarrow> ev_state
     \<Rightarrow> py_error + ev_state" where
  "ev_body bet_amount pool probs base c st =
     (case st of (ev, payout) \<Rightarrow>
       (let total = base + bet_amount in
        (case dict_get pool c of
           Inl e \<Rightarrow> Inl e
         | Inr pool_c \<Rightarrow>
            (let win_pool = pool_c + bet_amount in
             (case (if win_pool \<noteq> 0 then py_truediv total win_pool
                    else Inr (float_of_int 0)) of
                Inl e \<Rightarrow> Inl e
              | Inr ratio \<Rightarrow>
                 (let payout' = dict_set payout c
                        (if win_pool \<noteq> 0 then fl_mul ratio (float_of_int bet_amount)
                         else float_of_int 0) in
                  (case dict_get probs c of
                     Inl e \<Rightarrow> Inl e
                   | Inr probs_c \<Rightarrow>
                      (case dict_get payout' c of
                         Inl e \<Rightarrow> Inl e
                       | Inr payout_c \<Rightarrow>
                          Inr (dict_set ev c
                                (fl_sub (fl_mul probs_c payout_c) (float_of_int bet_amount)),
                               payout')))))))))"

fun ev_loop ::
  "int \<Rightarrow> (string, int) dict \<Rightarrow> (string, pyfloat) dict \<Rightarrow> int \<Rightarrow> string list \<Rightarrow> ev_state
     \<Rightarrow> py_error + ev_state" where
  "ev_loop bet_amount pool probs base [] st = Inr st"
| "ev_loop bet_amount pool probs base (c # cs) st =
     (case ev_body bet_amount pool probs base c st of
        Inl e \<Rightarrow> Inl e
      | Inr st' \<Rightarrow> ev_loop bet_amount pool probs base cs st')"

definition expected_value ::
  "string list \<Rightarrow> int \<Rightarrow> (string, int) dict \<Rightarrow> (string, pyfloat) dict
     \<Rightarrow> py_error + ev_state" where
  "expected_value cats bet_amount pool probs =
     (let base = py_sum_int (dict_values pool)
      in ev_loop bet_amount pool probs base cats ([], []))"

text \<open>
  The number of entries of a column whose label is one of \<open>cats\<close>, each label of
  \<open>cats\<close> counted as often as it is listed: the closed form of
  \<^verbatim>\<open>counts.sum()\<close> (lemma \<open>series_sum_counts\<close>).
\<close>

definition in_set_total :: "string list \<Rightarrow> string list \<Rightarrow> int" where
  "in_set_total cats col = (\<Sum>c\<leftarrow>cats. int (count_list col c))"





text \<open>
  The payout projection as section 4.2 of the specification words it, on a pool and on
  probabilities given as functions of the category, for comparison with the code:
  \<^verbatim>\<open>totalPoolAfterBet = sum(pool[k] for k in categories) + betAmount\<close>,
  \<^verbatim>\<open>winningPoolAfterBet = pool[c] + betAmount\<close>,
  \<^verbatim>\<open>payoutIfWin[c] = (totalPoolAfterBet / winningPoolAfterBet) * betAmount\<close> if
  \<^verbatim>\<open>winningPoolAfterBet > 0\<close>, else 0, and
  \<^verbatim>\<open>expectedValue[c] = probabilities[c] * payoutIfWin[c] - betAmount\<close>.
\<close>

definition spec_payoutIfWin :: "string list \<Rightarrow> int \<Rightarrow> (string \<Rightarrow> int) \<Rightarrow> string \<Rightarrow> rat" where
  "spec_payoutIfWin categories betAmount pool c =
     (let totalPoolAfterBet = (\<Sum>k\<leftarrow>categories. pool k) + betAmount;
          winningPoolAfterBet = pool c + betAmount
      in if winningPoolAfterBet > 0
         then (of_int totalPoolAfterBet / of_int winningPoolAfterBet) * of_int betAmount
         else 0)"




section \<open>The statistics functions on an explicit store\<close>















section \<open>Sums and dictionaries\<close>

lemma foldl_plus_sum_list: "foldl (+) (a::int) xs = a + sum_list xs"
  by (induction xs arbitrary: a) simp_all

lemma py_sum_int_sum_list: "py_sum_int xs = sum_list xs"
  by (simp add: py_sum_int_def foldl_plus_sum_list)



lemma foldl_fl_add_NaN: "foldl fl_add NaN xs = NaN"
  by (induction xs) simp_all

lemma fl_add_NaN_right: "fl_add x NaN = NaN"
  by (cases x) simp_all

lemma py_sum_float_NaN: "NaN \<in> set xs \<Longrightarrow> py_sum_float xs = NaN"
proof -
  have "NaN \<in> set xs \<Longrightarrow> foldl fl_add a xs = NaN" for a
  proof (induction xs arbitrary: a)
    case Nil
    then show ?case by simp
  next
    case (Cons x xs)
    show ?case
    proof (cases "x = NaN")
      case True
      then show ?thesis by (simp add: fl_add_NaN_right foldl_fl_add_NaN)
    next
      case False
      with Cons show ?thesis by simp
    qed
  qed
  then show "NaN \<in> set xs \<Longrightarrow> py_sum_float xs = NaN"
    by (simp add: py_sum_float_def)
qed

lemma traverse_Inr: "(\<And>x. x \<in> set xs \<Longrightarrow> f x = Inr (g x)) \<Longrightarrow> traverse f xs = Inr (map g xs)"
  by (induction xs) auto

lemma foldl_dict_set_map_of:
  "map_of (foldl (\<lambda>d (k, v). dict_set d k v) d0 kvs) = map_of d0 ++ map_of (rev kvs)"
  by (induction kvs arbitrary: d0)
     (auto simp: dict_set_def update_conv' map_add_def fun_eq_iff split: option.splits)

lemma foldl_dict_set_keys:
  "fst ` set (foldl (\<lambda>d (k, v). dict_set d k v) d0 kvs) = fst ` set d0 \<union> fst ` set kvs"
proof (induction kvs arbitrary: d0)
  case Nil
  then show ?case by simp
next
  case (Cons kv kvs)
  have "fst ` set (dict_set d0 (fst kv) (snd kv)) = insert (fst kv) (fst ` set d0)"
    by (simp add: dict_set_def dom_update)
  with Cons.IH [of "dict_set d0 (fst kv) (snd kv)"] show ?case
    by (simp add: case_prod_beta)
qed

lemma foldl_dict_set_distinct:
  "distinct (map fst d0) \<Longrightarrow> distinct (map fst (foldl (\<lambda>d (k, v). dict_set d k v) d0 kvs))"
  by (induction kvs arbitrary: d0) (auto simp: dict_set_def distinct_update)

lemma update_fresh: "k \<notin> fst ` set d \<Longrightarrow> AList.update k v d = d @ [(k, v)]"
  by (induction d) auto

lemma foldl_dict_set_fresh:
  "distinct (map fst kvs) \<Longrightarrow> fst ` set d0 \<inter> fst ` set kvs = {} \<Longrightarrow>
   foldl (\<lambda>d (k, v). dict_set d k v) d0 kvs = d0 @ kvs"
proof (induction kvs arbitrary: d0)
  case Nil
  then show ?case by simp
next
  case (Cons kv kvs)
  obtain k v where kv: "kv = (k, v)" by (cases kv)
  from Cons.prems have fresh: "k \<notin> fst ` set d0" and dk: "k \<notin> fst ` set kvs"
    and d: "distinct (map fst kvs)" and disj: "fst ` set d0 \<inter> fst ` set kvs = {}"
    by (auto simp: kv)
  have "fst ` set (d0 @ [(k, v)]) \<inter> fst ` set kvs = {}"
    using dk disj by auto
  from Cons.IH [OF d this] show ?case
    by (simp add: kv dict_set_def update_fresh [OF fresh])
qed

lemma dict_of_items_map_of: "map_of (dict_of_items kvs) = map_of (rev kvs)"
  by (simp add: dict_of_items_def foldl_dict_set_map_of)

lemma dict_of_items_keys: "set (dict_keys (dict_of_items kvs)) = fst ` set kvs"
  by (simp add: dict_of_items_def dict_keys_def foldl_dict_set_keys)

lemma dict_of_items_wf: "dict_wf (dict_of_items kvs)"
  by (simp add: dict_of_items_def dict_wf_def foldl_dict_set_distinct)

lemma dict_of_items_distinct: "distinct (map fst kvs) \<Longrightarrow> dict_of_items kvs = kvs"
  using foldl_dict_set_fresh [of kvs "[]"] by (simp add: dict_of_items_def)

lemma dict_of_items_same_value:
  "dict_get (dict_of_items (map (\<lambda>c. (c, f c)) cs)) c =
     (if c \<in> set cs then Inr (f c) else Inl (KeyError c))"
proof -
  have "map_of (rev (map (\<lambda>c. (c, f c)) cs)) c = (if c \<in> set cs then Some (f c) else None)"
    by (induction cs) (auto simp: map_add_def split: option.splits)
  then show ?thesis
    by (simp add: dict_get_def dict_of_items_map_of)
qed


section \<open>The frequency estimate in closed form\<close>

lemma value_counts_map_of:
  "map_of (value_counts col) c =
     (if c \<in> set col then Some (int (count_list col c)) else None)"
  by (simp add: value_counts_def map_of_map_restrict restrict_map_def)

lemma reindex_value_counts:
  "reindex cats 0 (value_counts col) = map (\<lambda>c. (c, int (count_list col c))) cats"
  by (simp add: reindex_def value_counts_map_of)

lemma series_sum_counts:
  "series_sum (map (\<lambda>c. (c, int (count_list col c))) cats) = in_set_total cats col"
  by (simp add: series_sum_def py_sum_int_sum_list in_set_total_def comp_def)

lemma calc_probabilities_nonempty:
  assumes "df \<noteq> []"
  shows "calc_probabilities cats df =
     Inr (dict_of_items (map (\<lambda>c. (c, np_truediv (int (count_list (map result df) c))
                                              (in_set_total cats (map result df)))) cats))"
  using assms
  by (simp add: calc_probabilities_def df_empty_def Let_def to_dict_def series_truediv_def
      reindex_value_counts series_sum_counts comp_def)

lemma calc_probabilities_empty:
  "calc_probabilities cats [] =
     Inr (dict_of_items (map (\<lambda>c. (c, Fin (1 / of_nat (length cats)))) cats))"
proof -
  have "traverse (\<lambda>c. (case py_truediv 1 (int (length cats)) of
                        Inl e \<Rightarrow> Inl e | Inr p \<Rightarrow> Inr (c, p))) cats
        = Inr (map (\<lambda>c. (c, Fin (1 / of_nat (length cats)))) cats)"
    by (rule traverse_Inr) (auto simp: py_truediv_def)
  then show ?thesis
    by (simp add: calc_probabilities_def df_empty_def)
qed

lemma in_set_total_all:
  assumes "distinct cats" and "set col \<subseteq> set cats"
  shows "in_set_total cats col = int (length col)"
proof -
  have "(\<Sum>c\<leftarrow>cats. count_list col c) = sum (count_list col) (set cats)"
    using assms(1) by (simp add: sum_list_distinct_conv_sum_set)
  also have "\<dots> = length col"
    using assms(2) by (simp add: sum_count_set)
  finally have "(\<Sum>c\<leftarrow>cats. count_list col c) = length col" .
  then have "int (\<Sum>c\<leftarrow>cats. count_list col c) = int (length col)" by simp
  then show ?thesis
    by (simp add: in_set_total_def sum_list_of_nat [symmetric] comp_def)
qed

lemma in_set_total_none:
  assumes "set col \<inter> set cats = {}"
  shows "in_set_total cats col = 0"
proof -
  have "c \<in> set cats \<Longrightarrow> count_list col c = 0" for c
    using assms by (auto simp: count_list_0_iff)
  then show ?thesis
    unfolding in_set_total_def by (induction cats) simp_all
qed

lemma in_set_total_pos:
  assumes "c \<in> set cats" and "c \<in> set col"
  shows "0 < in_set_total cats col"
proof -
  have "0 < count_list col c"
    using assms(2) by (simp add: count_list_0_iff zero_less_iff_neq_zero)
  moreover have "int (count_list col c) \<le> in_set_total cats col"
    unfolding in_set_total_def
    using assms(1) by (intro member_le_sum_list) auto
  ultimately show ?thesis by linarith
qed


section \<open>Properties of \<open>calc_probabilities\<close>\<close>


lemma dict_of_items_labelled:
  "distinct cs \<Longrightarrow> dict_of_items (map (\<lambda>c. (c, f c)) cs) = map (\<lambda>c. (c, f c)) cs"
  by (rule dict_of_items_distinct) (simp add: comp_def)

lemma dict_keys_labelled: "dict_keys (map (\<lambda>c. (c, f c)) cs) = cs"
  by (simp add: dict_keys_def comp_def)

lemma dict_values_labelled: "dict_values (map (\<lambda>c. (c, f c)) cs) = map f cs"
  by (simp add: dict_values_def comp_def)

lemma CATEGORIES_distinct: "distinct CATEGORIES"
  by (simp add: CATEGORIES_def label_win_def label_loss_def label_goal_loss_def)

text \<open>
  \<^bold>\<open>C3\<close> (uniformity on an empty history).  For every non-empty list \<open>cats\<close> of
  distinct categories, of size \<open>n\<close>, \<open>calc_probabilities\<close> on the empty table
  returns a dict whose keys are \<open>cats\<close> and which maps every category to exactly
  \<open>1 / n\<close>.
\<close>

theorem calc_probabilities_empty_uniform:
  assumes "cats \<noteq> []" and "distinct cats"
  shows "\<exists>d. calc_probabilities cats [] = Inr d \<and> dict_keys d = cats \<and>
             (\<forall>c\<in>set cats. dict_get d c = Inr (Fin (1 / of_nat (card (set cats)))))"
proof -
  let ?d = "dict_of_items (map (\<lambda>c. (c, Fin (1 / of_nat (length cats)))) cats)"
  have "calc_probabilities cats [] = Inr ?d"
    by (rule calc_probabilities_empty)
  moreover have "dict_keys ?d = cats"
    using assms(2) by (simp add: dict_of_items_labelled dict_keys_labelled)
  moreover have "\<forall>c\<in>set cats. dict_get ?d c = Inr (Fin (1 / of_nat (card (set cats))))"
    using assms(2) by (simp add: dict_of_items_same_value distinct_card)
  ultimately show ?thesis by blast
qed

theorem calc_probabilities_empty_uniform_witness:
  "CATEGORIES \<noteq> [] \<and> distinct CATEGORIES \<and> card (set CATEGORIES) = 3 \<and>
   calc_probabilities CATEGORIES [] =
     Inr [(label_win, Fin (1 / 3)), (label_loss, Fin (1 / 3)), (label_goal_loss, Fin (1 / 3))]"
proof -
  have ne: "CATEGORIES \<noteq> []" by (simp add: CATEGORIES_def)
  have n: "card (set CATEGORIES) = 3"
    using CATEGORIES_distinct by (simp add: distinct_card) (simp add: CATEGORIES_def)
  from calc_probabilities_empty_uniform [OF ne CATEGORIES_distinct]
  obtain d where d: "calc_probabilities CATEGORIES [] = Inr d" "dict_keys d = CATEGORIES"
    and v: "\<forall>c\<in>set CATEGORIES. dict_get d c = Inr (Fin (1 / of_nat (card (set CATEGORIES))))"
    by blast
  from d(2) obtain va vb vc
    where shape: "d = [(label_win, va), (label_loss, vb), (label_goal_loss, vc)]"
    by (auto simp: dict_keys_def CATEGORIES_def)
  have "dict_get d label_win = Inr (Fin (1 / 3))" "dict_get d label_loss = Inr (Fin (1 / 3))"
    "dict_get d label_goal_loss = Inr (Fin (1 / 3))"
    using v by (simp_all add: n) (simp_all add: CATEGORIES_def)
  moreover have "label_win \<noteq> label_loss" "label_win \<noteq> label_goal_loss"
    "label_loss \<noteq> label_goal_loss"
    using CATEGORIES_distinct by (simp_all add: CATEGORIES_def)
  ultimately have "va = Fin (1 / 3)" "vb = Fin (1 / 3)" "vc = Fin (1 / 3)"
    by (simp_all add: shape dict_get_def)
  with d(1) shape ne n CATEGORIES_distinct show ?thesis by simp
qed

text \<open>
  \<^bold>\<open>C2\<close> (frequency correctness).  For every non-empty table whose results all lie
  in the distinct categories \<open>cats\<close>, \<open>calc_probabilities\<close> maps each category to
  the number of its occurrences in the result column divided by the number of rows.  At
  the rows \<open>[A, A, B]\<close> over the categories \<open>[A, B, C]\<close> this is
  \<open>{A: 2/3, B: 1/3, C: 0}\<close>, the instance proved after the theorem.
\<close>

theorem calc_probabilities_frequency:
  assumes "df \<noteq> []" and "distinct cats" and "\<forall>r\<in>set df. result r \<in> set cats"
  shows "\<exists>d. calc_probabilities cats df = Inr d \<and> dict_keys d = cats \<and>
             (\<forall>c\<in>set cats. dict_get d c =
                Inr (Fin (of_nat (count_list (map result df) c) / of_nat (length df))))"
proof -
  let ?col = "map result df"
  let ?f = "\<lambda>c. np_truediv (int (count_list ?col c)) (in_set_total cats ?col)"
  let ?d = "dict_of_items (map (\<lambda>c. (c, ?f c)) cats)"
  have total: "in_set_total cats ?col = int (length df)"
    using assms(2,3) in_set_total_all [of cats ?col] by auto
  have val: "?f c = Fin (of_nat (count_list ?col c) / of_nat (length df))" for c
    using assms(1) by (simp add: total np_truediv_def)
  have "calc_probabilities cats df = Inr ?d"
    using assms(1) by (rule calc_probabilities_nonempty)
  moreover have "dict_keys ?d = cats"
    using assms(2) by (simp only: dict_of_items_labelled dict_keys_labelled)
  moreover have "\<forall>c\<in>set cats. dict_get ?d c =
      Inr (Fin (of_nat (count_list ?col c) / of_nat (length df)))"
    by (simp only: dict_of_items_same_value val) simp
  ultimately show ?thesis by blast
qed

theorem calc_probabilities_frequency_witness:
  "calc_probabilities [''A'', ''B'', ''C'']
     [\<lparr>held_at = 1, result = ''A''\<rparr>, \<lparr>held_at = 2, result = ''A''\<rparr>,
      \<lparr>held_at = 3, result = ''B''\<rparr>]
   = Inr [(''A'', Fin (2 / 3)), (''B'', Fin (1 / 3)), (''C'', Fin 0)]"
proof -
  let ?cats = "[''A'', ''B'', ''C'']"
  let ?df = "[\<lparr>held_at = 1, result = ''A''\<rparr>, \<lparr>held_at = 2, result = ''A''\<rparr>,
      \<lparr>held_at = 3, result = ''B''\<rparr>]"
  have h1: "?df \<noteq> []" by simp
  have h2: "distinct ?cats" by simp
  have h3: "\<forall>r\<in>set ?df. result r \<in> set ?cats" by simp
  from calc_probabilities_frequency [OF h1 h2 h3]
  obtain d where d: "calc_probabilities ?cats ?df = Inr d" "dict_keys d = ?cats"
    and v: "\<forall>c\<in>set ?cats. dict_get d c =
                Inr (Fin (of_nat (count_list (map result ?df) c) / of_nat (length ?df)))"
    by blast
  from d(2) obtain va vb vc where shape: "d = [(''A'', va), (''B'', vb), (''C'', vc)]"
    by (auto simp: dict_keys_def)
  from v have "va = Fin (2 / 3)" "vb = Fin (1 / 3)" "vc = Fin 0"
    by (simp_all add: shape dict_get_def)
  with d(1) shape show ?thesis by simp
qed

text \<open>
  \<^bold>\<open>C7\<close> (no category is dropped, no value is negative).  For every table, empty
  or not, \<open>calc_probabilities\<close> returns a dict whose key set is the category set;
  when the table is empty or has at least one result in the category set (so whenever
  its results all lie in the category set), every value is a finite non-negative
  number, and a category that no row of a non-empty table has is mapped to 0.
\<close>

theorem calc_probabilities_all_keys_nonneg:
  "\<exists>d. calc_probabilities cats df = Inr d \<and> dict_wf d \<and> set (dict_keys d) = set cats \<and>
       (df = [] \<or> (\<exists>r\<in>set df. result r \<in> set cats) \<longrightarrow>
        (\<forall>c\<in>set cats. \<exists>q. dict_get d c = Inr (Fin q) \<and> 0 \<le> q \<and>
            (df \<noteq> [] \<and> c \<notin> result ` set df \<longrightarrow> q = 0)))"
proof (cases "df = []")
  case True
  let ?d = "dict_of_items (map (\<lambda>c. (c, Fin (1 / of_nat (length cats)))) cats)"
  have "calc_probabilities cats df = Inr ?d"
    using True by (simp add: calc_probabilities_empty)
  moreover have "dict_wf ?d" by (rule dict_of_items_wf)
  moreover have "set (dict_keys ?d) = set cats"
    by (simp add: dict_of_items_keys image_image)
  moreover have "\<forall>c\<in>set cats. \<exists>q. dict_get ?d c = Inr (Fin q) \<and> 0 \<le> q \<and>
                 (df \<noteq> [] \<and> c \<notin> result ` set df \<longrightarrow> q = 0)"
    using True by (simp add: dict_of_items_same_value)
  ultimately show ?thesis by blast
next
  case False
  let ?col = "map result df"
  let ?f = "\<lambda>c. np_truediv (int (count_list ?col c)) (in_set_total cats ?col)"
  let ?d = "dict_of_items (map (\<lambda>c. (c, ?f c)) cats)"
  have run: "calc_probabilities cats df = Inr ?d"
    using False by (rule calc_probabilities_nonempty)
  have wf: "dict_wf ?d" by (rule dict_of_items_wf)
  have keys: "set (dict_keys ?d) = set cats"
    by (simp add: dict_of_items_keys image_image)
  have "\<forall>c\<in>set cats. \<exists>q. dict_get ?d c = Inr (Fin q) \<and> 0 \<le> q \<and>
                 (df \<noteq> [] \<and> c \<notin> result ` set df \<longrightarrow> q = 0)"
    if inside: "df = [] \<or> (\<exists>r\<in>set df. result r \<in> set cats)"
  proof
    fix c assume c: "c \<in> set cats"
    from False inside obtain r where r: "r \<in> set df" "result r \<in> set cats" by blast
    then have "result r \<in> set cats" "result r \<in> set ?col" by auto
    then have pos: "0 < in_set_total cats ?col" by (rule in_set_total_pos)
    let ?q = "of_nat (count_list ?col c) / of_int (in_set_total cats ?col) :: rat"
    have val: "?f c = Fin ?q"
      using pos by (simp add: np_truediv_def)
    have "dict_get ?d c = Inr (Fin ?q)"
      using c by (simp only: dict_of_items_same_value val) simp
    moreover have "0 \<le> ?q" using pos by simp
    moreover have "c \<notin> result ` set df \<longrightarrow> ?q = 0" by simp
    ultimately show "\<exists>q. dict_get ?d c = Inr (Fin q) \<and> 0 \<le> q \<and>
                 (df \<noteq> [] \<and> c \<notin> result ` set df \<longrightarrow> q = 0)"
      by blast
  qed
  with run wf keys show ?thesis by blast
qed

theorem calc_probabilities_all_keys_nonneg_witness:
  "calc_probabilities CATEGORIES
     [\<lparr>held_at = 1, result = label_loss\<rparr>, \<lparr>held_at = 2, result = label_loss\<rparr>,
      \<lparr>held_at = 3, result = label_goal_loss\<rparr>, \<lparr>held_at = 4, result = label_loss\<rparr>]
   = Inr [(label_win, Fin 0), (label_loss, Fin (3 / 4)), (label_goal_loss, Fin (1 / 4))]"
proof -
  let ?df = "[\<lparr>held_at = 1, result = label_loss\<rparr>, \<lparr>held_at = 2, result = label_loss\<rparr>,
      \<lparr>held_at = 3, result = label_goal_loss\<rparr>, \<lparr>held_at = 4, result = label_loss\<rparr>]"
  have h: "?df = [] \<or> (\<exists>r\<in>set ?df. result r \<in> set CATEGORIES)"
    by (simp add: CATEGORIES_def)
  have neq: "label_win \<noteq> label_loss" "label_win \<noteq> label_goal_loss"
    "label_loss \<noteq> label_goal_loss" "label_goal_loss \<noteq> label_loss"
    using CATEGORIES_distinct by (auto simp: CATEGORIES_def)
  from calc_probabilities_all_keys_nonneg [of CATEGORIES ?df] h
  obtain d where d: "calc_probabilities CATEGORIES ?df = Inr d"
    and v: "\<forall>c\<in>set CATEGORIES. \<exists>q. dict_get d c = Inr (Fin q) \<and> 0 \<le> q \<and>
            (?df \<noteq> [] \<and> c \<notin> result ` set ?df \<longrightarrow> q = 0)"
    by blast
  from v neq have "dict_get d label_win = Inr (Fin 0)"
    by (auto simp: CATEGORIES_def)
  moreover have "calc_probabilities CATEGORIES ?df
     = Inr [(label_win, np_truediv 0 4), (label_loss, Fin (3 / 4)), (label_goal_loss, Fin (1 / 4))]"
    using neq
    by (simp add: calc_probabilities_nonempty in_set_total_def CATEGORIES_def
        dict_of_items_def dict_set_def)
       (simp add: np_truediv_def)
  ultimately show ?thesis
    using d by (auto simp: dict_get_def)
qed



text \<open>
  \<^bold>\<open>C9\<close> (results outside the category set).  For a non-empty table none of whose
  results is in the category set, the reindexed counts sum to zero, every category is
  mapped to \<open>NaN\<close> (the quotient \<open>0 / 0\<close>), and the sum of the values of the
  returned dict is \<open>NaN\<close>, not 1, when there is a category at all.
\<close>

theorem calc_probabilities_out_of_set_nan:
  assumes "df \<noteq> []" and "\<forall>r\<in>set df. result r \<notin> set cats"
  shows "series_sum (reindex cats 0 (value_counts (map result df))) = 0 \<and>
         (\<exists>d. calc_probabilities cats df = Inr d \<and> set (dict_keys d) = set cats \<and>
              (\<forall>c\<in>set cats. dict_get d c = Inr NaN) \<and>
              (cats \<noteq> [] \<longrightarrow> py_sum_float (dict_values d) = NaN))"
proof -
  let ?col = "map result df"
  let ?f = "\<lambda>c. np_truediv (int (count_list ?col c)) (in_set_total cats ?col)"
  let ?d = "dict_of_items (map (\<lambda>c. (c, ?f c)) cats)"
  have disj: "set ?col \<inter> set cats = {}" using assms(2) by auto
  then have total: "in_set_total cats ?col = 0" by (rule in_set_total_none)
  have zero: "series_sum (reindex cats 0 (value_counts ?col)) = 0"
    by (simp add: reindex_value_counts series_sum_counts total)
  have val: "c \<in> set cats \<Longrightarrow> ?f c = NaN" for c
    using disj by (auto simp: total np_truediv_def count_list_0_iff)
  have run: "calc_probabilities cats df = Inr ?d"
    using assms(1) by (rule calc_probabilities_nonempty)
  have keys: "set (dict_keys ?d) = set cats"
    by (simp add: dict_of_items_keys image_image)
  have nan: "\<forall>c\<in>set cats. dict_get ?d c = Inr NaN"
    by (simp only: dict_of_items_same_value) (simp add: val)
  have "py_sum_float (dict_values ?d) = NaN" if "cats \<noteq> []"
  proof -
    from that obtain c where c: "c \<in> set cats" by (cases cats) auto
    with keys have "c \<in> fst ` set ?d" by (simp add: dict_keys_def)
    then obtain v where "(c, v) \<in> set ?d" by force
    moreover have "distinct (map fst ?d)"
      using dict_of_items_wf [of "map (\<lambda>c. (c, ?f c)) cats"] by (simp add: dict_wf_def)
    ultimately have "map_of ?d c = Some v" by simp
    then have "dict_get ?d c = Inr v" by (simp add: dict_get_def)
    moreover from nan c have "dict_get ?d c = Inr NaN" by blast
    ultimately have "v = NaN" by simp
    with \<open>(c, v) \<in> set ?d\<close> have "NaN \<in> set (dict_values ?d)"
      by (force simp: dict_values_def)
    then show ?thesis by (rule py_sum_float_NaN)
  qed
  with zero run keys nan show ?thesis by blast
qed

theorem calc_probabilities_out_of_set_nan_witness:
  "calc_probabilities [''A'', ''B'', ''C''] [\<lparr>held_at = 1, result = ''X''\<rparr>]
     = Inr [(''A'', NaN), (''B'', NaN), (''C'', NaN)] \<and>
   py_sum_float (dict_values [(''A'', NaN), (''B'', NaN), (''C'', NaN)]) = NaN"
proof -
  let ?df = "[\<lparr>held_at = 1, result = ''X''\<rparr>]"
  let ?cats = "[''A'', ''B'', ''C'']"
  have h1: "?df \<noteq> []" by simp
  have h2: "\<forall>r\<in>set ?df. result r \<notin> set ?cats" by simp
  from calc_probabilities_out_of_set_nan [OF h1 h2]
  obtain d where d: "calc_probabilities ?cats ?df = Inr d" 
    and v: "\<forall>c\<in>set ?cats. dict_get d c = Inr NaN"
    and s: "py_sum_float (dict_values d) = NaN"
    by auto
  have "calc_probabilities ?cats ?df = Inr [(''A'', NaN), (''B'', NaN), (''C'', NaN)]"
    by (simp add: calc_probabilities_nonempty in_set_total_def np_truediv_def
        dict_of_items_def dict_set_def)
  with d s show ?thesis by simp
qed


section \<open>The payout projection in closed form\<close>








lemma dict_get_keys: "dict_get d c = Inr v \<Longrightarrow> c \<in> set (dict_keys d)"
  by (auto simp: dict_get_def dict_keys_def split: option.splits dest: map_of_SomeD
      intro: rev_image_eqI)

lemma dict_get_present: "c \<in> set (dict_keys d) \<Longrightarrow> \<exists>v. dict_get d c = Inr v"
  by (cases "map_of d c") (auto simp: dict_get_def dict_keys_def map_of_eq_None_iff)










section \<open>Properties of \<open>expected_value\<close>\<close>












section \<open>The store model refines the functional one\<close>












section \<open>The hypotheses of the theorems, at their boundary\<close>

text \<open>
  \<open>base\<close> is \<^verbatim>\<open>sum(pool.values())\<close>: it counts every key of \<open>pool\<close>, not the
  categories only.  With a key \<open>X\<close> that is no category the payout differs from the
  specification's, whose total runs over the categories; hence the hypothesis that the
  keys of the pool are the categories.
\<close>

lemma expected_value_counts_every_pool_key:
  "expected_value [''A''] 1 [(''A'', 1), (''X'', 2)] [(''A'', Fin 1)] =
     Inr ([(''A'', Fin 1)], [(''A'', Fin 2)])"
  "spec_payoutIfWin [''A''] 1 (\<lambda>k. if k = ''A'' then 1 else 2) ''A'' = 1"
  by (simp_all add: expected_value_def ev_body_def dict_get_def dict_set_def py_sum_int_def
      dict_values_def float_of_int_def fl_sub_def Let_def py_truediv_def spec_payoutIfWin_def)

text \<open>A category without an entry in \<open>pool\<close> ends the call with \<open>KeyError\<close>.\<close>

lemma expected_value_missing_key:
  "expected_value [''A'', ''B''] 1 [(''A'', 1)] [(''A'', Fin 1), (''B'', Fin 0)] =
     Inl (KeyError ''B'')"
  by (simp add: expected_value_def ev_body_def dict_get_def dict_set_def py_sum_int_def
      dict_values_def float_of_int_def fl_sub_def Let_def py_truediv_def)

text \<open>
  A probability that is \<open>NaN\<close>, as \<open>calc_probabilities\<close> returns it for a table
  with no result in the category set, gives the expected value \<open>NaN\<close> even at a stake
  of 0; hence the finite probabilities in the theorems on a stake of 0.
\<close>

lemma expected_value_zero_bet_nan_probability:
  "expected_value [''A''] 0 [(''A'', 3)] [(''A'', NaN)] = Inr ([(''A'', NaN)], [(''A'', Fin 0)])"
  by (simp add: expected_value_def ev_body_def dict_get_def dict_set_def py_sum_int_def
      dict_values_def float_of_int_def fl_sub_def Let_def py_truediv_def)

text \<open>
  \<^verbatim>\<open>counts.sum()\<close> is the number of rows whose result is a category: a row with
  another result is not counted in the denominator.  The frequencies are those among all
  rows when every result is a category.
\<close>

lemma calc_probabilities_divides_by_in_set_count:
  "calc_probabilities [''A'', ''B'']
     [\<lparr>held_at = 1, result = ''A''\<rparr>, \<lparr>held_at = 2, result = ''X''\<rparr>] =
   Inr [(''A'', Fin 1), (''B'', Fin 0)]"
  by (simp add: calc_probabilities_nonempty in_set_total_def np_truediv_def dict_of_items_def
      dict_set_def)

end
